theory Spec2Isabelle
  imports Main
begin

section \<open>The fan state and its automation actions (esphomelib/fan/fan_state.h)\<close>

text \<open>
  The header declares the class \<open>FanState\<close> and defines, as templates, the three
  automation actions \<open>TurnOnAction\<close>, \<open>TurnOffAction\<close> and \<open>ToggleAction\<close>.
  The actions reach the fan through a pointer \<open>FanState *state_\<close>, so the model keeps
  the fan objects in a store indexed by address and threads that store, together with
  a trace of the calls made, through every operation.
\<close>

subsection \<open>Data model\<close>

text \<open>The enum \<open>FanSpeed\<close>, in the order of its declaration (\<open>FAN_SPEED_OFF = 0\<close>).\<close>

datatype FanSpeed = FAN_SPEED_OFF | FAN_SPEED_LOW | FAN_SPEED_MEDIUM | FAN_SPEED_HIGH

text \<open>
  Modelled from the spec: the class \<open>FanTraits\<close> (\<open>fan_traits.h\<close>) is missing. The spec
  describes it as a descriptor recording which of oscillation and speed control the fan
  supports.
\<close>

record FanTraits =
  supports_oscillation :: bool
  supports_speed :: bool

text \<open>
  An observer is a \<open>std::function<void()>\<close>. The model names each closure by a handle and
  records its invocation in the trace. What the closure does is outside the header; as the
  spec has it, an observer reads the fan and does not write to it.
\<close>

type_synonym callback = nat

text \<open>A \<open>FanState *\<close>.\<close>

type_synonym addr = nat

text \<open>
  The members of \<open>FanState\<close>. A field name cannot end in an underscore in a record
  update, so the member \<open>state_\<close> is the field \<open>state_m\<close>, and so on. The field
  \<open>name_m\<close> is the name held by the base class \<open>Nameable\<close>, \<open>state_callback_m\<close> the
  observers held by the \<open>CallbackManager<void()>\<close>, in registration order.
\<close>

record FanState =
  name_m :: string
  state_m :: bool
  oscillating_m :: bool
  speed_m :: FanSpeed
  traits_m :: FanTraits
  state_callback_m :: "callback list"

text \<open>
  What an execution does that can be seen from outside: the calls of the three setters
  on a fan, the invocations of observers, and the calls of \<open>play_next\<close> with their
  argument.
\<close>

datatype 'T event =
    Call_set_state addr bool
  | Call_set_oscillating addr bool
  | Call_set_speed addr FanSpeed
  | Invoke_callback callback
  | Call_play_next 'T

record 'T world =
  heap :: "addr \<Rightarrow> FanState"
  trace :: "'T event list"

subsection \<open>Construction\<close>

text \<open>
  The default member initialisers of the header: \<open>state_{false}\<close>, \<open>oscillating_{false}\<close>,
  \<open>speed_{FAN_SPEED_HIGH}\<close>, \<open>traits_{}\<close>, \<open>state_callback_{}\<close>. The constructor
  \<open>FanState(const std::string &name)\<close> passes the name to \<open>Nameable\<close>. The value of a
  default-constructed \<open>FanTraits\<close> is not in the header and is a parameter here.
\<close>

definition FanState_new :: "string \<Rightarrow> FanTraits \<Rightarrow> FanState" where
  "FanState_new name default_traits =
     \<lparr>name_m = name, state_m = False, oscillating_m = False, speed_m = FAN_SPEED_HIGH,
      traits_m = default_traits, state_callback_m = []\<rparr>"

text \<open>\<open>new FanState(name)\<close> at address \<open>p\<close>.\<close>

definition construct :: "addr \<Rightarrow> string \<Rightarrow> FanTraits \<Rightarrow> 'T world \<Rightarrow> 'T world" where
  "construct p name default_traits w = w\<lparr>heap := (heap w)(p := FanState_new name default_traits)\<rparr>"

subsection \<open>The callback manager\<close>

text \<open>
  Modelled from the spec: \<open>CallbackManager\<close> (\<open>helpers.h\<close>) is missing. The spec: observers
  are an ordered collection, appended and never removed; a notification invokes every
  registered observer synchronously, in registration order.
\<close>

definition CallbackManager_add :: "callback \<Rightarrow> callback list \<Rightarrow> callback list" where
  "CallbackManager_add cb cbs = cbs @ [cb]"

fun CallbackManager_call :: "callback list \<Rightarrow> 'T world \<Rightarrow> 'T world" where
  "CallbackManager_call [] w = w"
| "CallbackManager_call (cb # cbs) w =
     CallbackManager_call cbs (w\<lparr>trace := trace w @ [Invoke_callback cb]\<rparr>)"

subsection \<open>The methods of FanState\<close>

text \<open>
  Modelled from the spec: the bodies of the methods of \<open>FanState\<close> (\<open>fan_state.cpp\<close>) are
  missing; the header gives their signatures. The spec: a getter reads its attribute; each
  of \<open>set_state\<close>, \<open>set_oscillating\<close> and \<open>set_speed\<close> stores the value unconditionally
  and then invokes every registered observer before it returns; \<open>set_traits\<close> stores the
  descriptor and does not notify; \<open>add_on_state_change_callback\<close> registers an observer.
\<close>

definition add_on_state_change_callback :: "addr \<Rightarrow> callback \<Rightarrow> 'T world \<Rightarrow> 'T world" where
  "add_on_state_change_callback p update_callback w =
     w\<lparr>heap := (heap w)(p := (heap w p)
        \<lparr>state_callback_m := CallbackManager_add update_callback (state_callback_m (heap w p))\<rparr>)\<rparr>"

text \<open>The observers \<open>cbs\<close> registered on the fan at \<open>p\<close> one after the other, first to last.\<close>

fun register_all :: "addr \<Rightarrow> callback list \<Rightarrow> 'T world \<Rightarrow> 'T world" where
  "register_all p [] w = w"
| "register_all p (cb # cbs) w = register_all p cbs (add_on_state_change_callback p cb w)"

definition get_state :: "addr \<Rightarrow> 'T world \<Rightarrow> bool" where
  "get_state p w = state_m (heap w p)"

definition is_oscillating :: "addr \<Rightarrow> 'T world \<Rightarrow> bool" where
  "is_oscillating p w = oscillating_m (heap w p)"

definition get_speed :: "addr \<Rightarrow> 'T world \<Rightarrow> FanSpeed" where
  "get_speed p w = speed_m (heap w p)"

definition get_traits :: "addr \<Rightarrow> 'T world \<Rightarrow> FanTraits" where
  "get_traits p w = traits_m (heap w p)"

definition set_traits :: "addr \<Rightarrow> FanTraits \<Rightarrow> 'T world \<Rightarrow> 'T world" where
  "set_traits p traits w = w\<lparr>heap := (heap w)(p := (heap w p)\<lparr>traits_m := traits\<rparr>)\<rparr>"

definition set_state :: "addr \<Rightarrow> bool \<Rightarrow> 'T world \<Rightarrow> 'T world" where
  "set_state p state w =
     CallbackManager_call (state_callback_m (heap w p))
       (w\<lparr>heap := (heap w)(p := (heap w p)\<lparr>state_m := state\<rparr>),
          trace := trace w @ [Call_set_state p state]\<rparr>)"

definition set_oscillating :: "addr \<Rightarrow> bool \<Rightarrow> 'T world \<Rightarrow> 'T world" where
  "set_oscillating p oscillating w =
     CallbackManager_call (state_callback_m (heap w p))
       (w\<lparr>heap := (heap w)(p := (heap w p)\<lparr>oscillating_m := oscillating\<rparr>),
          trace := trace w @ [Call_set_oscillating p oscillating]\<rparr>)"

definition set_speed :: "addr \<Rightarrow> FanSpeed \<Rightarrow> 'T world \<Rightarrow> 'T world" where
  "set_speed p speed w =
     CallbackManager_call (state_callback_m (heap w p))
       (w\<lparr>heap := (heap w)(p := (heap w p)\<lparr>speed_m := speed\<rparr>),
          trace := trace w @ [Call_set_speed p speed]\<rparr>)"


subsection \<open>Templatable values\<close>

text \<open>
  Modelled from the spec: \<open>TemplatableValue\<close> (\<open>helpers.h\<close>) is missing. The spec: a slot
  that is empty, or holds a fixed constant, or holds a function of the context that is
  evaluated at execution time. The spec gives no value to an empty slot, and
  \<open>tv_value\<close> has no equation for it; \<open>play\<close> asks \<open>has_value\<close> first.
\<close>

datatype ('a, 'T) TemplatableValue = TV_Empty | TV_Value 'a | TV_Lambda "'T \<Rightarrow> 'a"

fun has_value :: "('a, 'T) TemplatableValue \<Rightarrow> bool" where
  "has_value TV_Empty = False"
| "has_value (TV_Value v) = True"
| "has_value (TV_Lambda f) = True"

fun tv_value :: "('a, 'T) TemplatableValue \<Rightarrow> 'T \<Rightarrow> 'a" where
  "tv_value (TV_Value v) x = v"
| "tv_value (TV_Lambda f) x = f x"

subsection \<open>Actions\<close>

text \<open>
  An action node: the pointer \<open>state_\<close> to its fan, for \<open>TurnOnAction\<close> the two slots
  \<open>oscillating_\<close> and \<open>speed_\<close>, and the pointer to the next node of the chain held by the
  base class \<open>Action<T>\<close> (\<open>None\<close> for the null pointer).
\<close>

datatype 'T Action =
    TurnOnAction addr "(bool, 'T) TemplatableValue" "(FanSpeed, 'T) TemplatableValue"
      "'T Action option"
  | TurnOffAction addr "'T Action option"
  | ToggleAction addr "'T Action option"

text \<open>The constructors of the header, as \<open>make_turn_on_action\<close> and its siblings call them.\<close>

definition make_turn_on_action :: "addr \<Rightarrow> 'T Action" where
  "make_turn_on_action p = TurnOnAction p TV_Empty TV_Empty None"

definition make_turn_off_action :: "addr \<Rightarrow> 'T Action" where
  "make_turn_off_action p = TurnOffAction p None"

definition make_toggle_action :: "addr \<Rightarrow> 'T Action" where
  "make_toggle_action p = ToggleAction p None"

text \<open>
  The four setters of \<open>TurnOnAction\<close>: each overwrites one slot, with a function or with
  a constant. They are methods of \<open>TurnOnAction\<close> only; the last equation of each makes
  the model total.
\<close>

fun TurnOnAction_set_oscillating_fn :: "('T \<Rightarrow> bool) \<Rightarrow> 'T Action \<Rightarrow> 'T Action" where
  "TurnOnAction_set_oscillating_fn oscillating (TurnOnAction p osc spd nxt) =
     TurnOnAction p (TV_Lambda oscillating) spd nxt"
| "TurnOnAction_set_oscillating_fn oscillating a = a"

fun TurnOnAction_set_oscillating :: "bool \<Rightarrow> 'T Action \<Rightarrow> 'T Action" where
  "TurnOnAction_set_oscillating oscillating (TurnOnAction p osc spd nxt) =
     TurnOnAction p (TV_Value oscillating) spd nxt"
| "TurnOnAction_set_oscillating oscillating a = a"

fun TurnOnAction_set_speed_fn :: "('T \<Rightarrow> FanSpeed) \<Rightarrow> 'T Action \<Rightarrow> 'T Action" where
  "TurnOnAction_set_speed_fn speed (TurnOnAction p osc spd nxt) =
     TurnOnAction p osc (TV_Lambda speed) nxt"
| "TurnOnAction_set_speed_fn speed a = a"

fun TurnOnAction_set_speed :: "FanSpeed \<Rightarrow> 'T Action \<Rightarrow> 'T Action" where
  "TurnOnAction_set_speed speed (TurnOnAction p osc spd nxt) =
     TurnOnAction p osc (TV_Value speed) nxt"
| "TurnOnAction_set_speed speed a = a"

text \<open>
  The three \<open>play\<close> methods of the header, statement by statement.

  Modelled from the spec: \<open>Action<T>::play_next\<close> (\<open>automation.h\<close>) is missing. The spec:
  it forwards the context to the next chained action if there is one.
\<close>

fun play :: "'T Action \<Rightarrow> 'T \<Rightarrow> 'T world \<Rightarrow> 'T world"
  and play_next :: "'T Action option \<Rightarrow> 'T \<Rightarrow> 'T world \<Rightarrow> 'T world" where
  "play (ToggleAction p nxt) x w =
     play_next nxt x (set_state p (\<not> get_state p w) w)"
| "play (TurnOnAction p osc spd nxt) x w =
     (let w1 = set_state p True w;
          w2 = (if has_value osc then set_oscillating p (tv_value osc x) w1 else w1);
          w3 = (if has_value spd then set_speed p (tv_value spd x) w2 else w2)
      in play_next nxt x w3)"
| "play (TurnOffAction p nxt) x w =
     play_next nxt x (set_state p False w)"
| "play_next None x w = w\<lparr>trace := trace w @ [Call_play_next x]\<rparr>"
| "play_next (Some a) x w = play a x (w\<lparr>trace := trace w @ [Call_play_next x]\<rparr>)"

section \<open>Properties\<close>

subsection \<open>What the setters do to the store and to the trace\<close>

lemma CallbackManager_call_trace:
  "CallbackManager_call cbs w = w\<lparr>trace := trace w @ map Invoke_callback cbs\<rparr>"
  by (induction cbs arbitrary: w) simp_all

lemma heap_set_state:
  "heap (set_state p b w) = (heap w)(p := (heap w p)\<lparr>state_m := b\<rparr>)"
  by (simp add: set_state_def CallbackManager_call_trace)

lemma trace_set_state:
  "trace (set_state p b w) =
     trace w @ Call_set_state p b # map Invoke_callback (state_callback_m (heap w p))"
  by (simp add: set_state_def CallbackManager_call_trace)

lemma heap_set_oscillating:
  "heap (set_oscillating p b w) = (heap w)(p := (heap w p)\<lparr>oscillating_m := b\<rparr>)"
  by (simp add: set_oscillating_def CallbackManager_call_trace)

lemma trace_set_oscillating:
  "trace (set_oscillating p b w) =
     trace w @ Call_set_oscillating p b # map Invoke_callback (state_callback_m (heap w p))"
  by (simp add: set_oscillating_def CallbackManager_call_trace)

lemma heap_set_speed:
  "heap (set_speed p s w) = (heap w)(p := (heap w p)\<lparr>speed_m := s\<rparr>)"
  by (simp add: set_speed_def CallbackManager_call_trace)

lemma trace_set_speed:
  "trace (set_speed p s w) =
     trace w @ Call_set_speed p s # map Invoke_callback (state_callback_m (heap w p))"
  by (simp add: set_speed_def CallbackManager_call_trace)

lemmas setter_simps = heap_set_state trace_set_state heap_set_oscillating trace_set_oscillating
  heap_set_speed trace_set_speed
lemmas getter_defs = get_state_def is_oscillating_def get_speed_def get_traits_def

lemma play_trace_grows:
  "\<exists>rest. trace (play a x w) = trace w @ rest"
  "\<exists>rest. trace (play_next nxt x w) = trace w @ Call_play_next x # rest"
proof (induction a x w and nxt x w rule: play_play_next.induct)
  case (1 p nxt x w)
  then show ?case by (auto simp: setter_simps)
next
  case (2 p osc spd nxt x w)
  define w1 where "w1 = set_state p True w"
  define w2 where "w2 = (if has_value osc then set_oscillating p (tv_value osc x) w1 else w1)"
  define w3 where "w3 = (if has_value spd then set_speed p (tv_value spd x) w2 else w2)"
  from "2.IH" [OF w1_def w2_def w3_def]
  obtain rest where r: "trace (play_next nxt x w3) = trace w3 @ Call_play_next x # rest"
    by blast
  have "\<exists>own. trace w3 = trace w @ own"
    by (simp add: w3_def w2_def w1_def setter_simps)
  then obtain own where "trace w3 = trace w @ own" ..
  with r have "trace (play_next nxt x w3) = trace w @ (own @ Call_play_next x # rest)"
    by simp
  then show ?case
    unfolding play.simps Let_def w3_def w2_def w1_def by blast
next
  case (3 p nxt x w)
  then show ?case by (auto simp: setter_simps)
next
  case (4 x w)
  then show ?case by simp
next
  case (5 a x w)
  then show ?case by auto
qed


lemma heap_register_all:
  "heap (register_all p cbs w) =
     (heap w)(p := (heap w p)\<lparr>state_callback_m := state_callback_m (heap w p) @ cbs\<rparr>)"
  by (induction cbs arbitrary: w)
     (simp_all add: add_on_state_change_callback_def CallbackManager_add_def)

lemma trace_register_all: "trace (register_all p cbs w) = trace w"
  by (induction cbs arbitrary: w) (simp_all add: add_on_state_change_callback_def)

text \<open>
  Claim C1. For every boolean \<open>b\<close>, \<open>set_state(b)\<close> followed by \<open>get_state()\<close> returns
  \<open>b\<close>, and the call of \<open>set_state\<close> invokes every observer registered before it through
  \<open>add_on_state_change_callback\<close> exactly once, in registration order, before it returns:
  the trace grows by the call and then by one invocation for each observer, those the fan
  already had followed by the newly registered \<open>cbs\<close>. On a freshly constructed fan these
  are exactly \<open>cbs\<close>.
\<close>

theorem set_state_get_state_notifies_in_order:
  "get_state p (set_state p b (register_all p cbs w)) = b \<and>
   trace (set_state p b (register_all p cbs w)) =
     trace w @ Call_set_state p b # map Invoke_callback (state_callback_m (heap w p) @ cbs) \<and>
   trace (set_state p b (register_all p cbs (construct p name tr w))) =
     trace w @ Call_set_state p b # map Invoke_callback cbs"
  by (simp add: get_state_def setter_simps heap_register_all trace_register_all
      construct_def FanState_new_def)



text \<open>
  Claim C3. From every starting power value, playing a toggle action twice in succession on
  the same fan gives back the power value that \<open>get_state\<close> returned at the start; one
  play negates it, by the single call \<open>set_state(!get_state())\<close>. The action is the one
  \<open>make_toggle_action\<close> builds, with nothing chained after it; with a chain after it, the
  state handed to \<open>play_next\<close> has the power negated.
\<close>

theorem toggle_play_twice_restores_state:
  "get_state p (play (make_toggle_action p) y (play (make_toggle_action p) x w)) = get_state p w \<and>
   get_state p (play (ToggleAction p None) x w) = (\<not> get_state p w) \<and>
   trace (play (ToggleAction p None) x w) =
     trace w @ Call_set_state p (\<not> get_state p w) #
       map Invoke_callback (state_callback_m (heap w p)) @ [Call_play_next x] \<and>
   (\<exists>w'. play (ToggleAction p nxt) x w = play_next nxt x w' \<and>
         get_state p w' = (\<not> get_state p w))"
proof (intro conjI)
  show "\<exists>w'. play (ToggleAction p nxt) x w = play_next nxt x w' \<and>
         get_state p w' = (\<not> get_state p w)"
    by (rule exI [of _ "set_state p (\<not> get_state p w) w"])
       (simp add: getter_defs setter_simps)
qed (simp_all add: make_toggle_action_def getter_defs setter_simps)

text \<open>
  Claim C4. For every fan and every context value, \<open>TurnOnAction::play\<close> with an unset
  speed slot leaves \<open>get_speed()\<close> as it was, with an unset oscillation slot leaves
  \<open>is_oscillating()\<close> as it was, and in both cases forces \<open>get_state()\<close> to true. This
  holds of the state the action hands to \<open>play_next\<close>, whatever is chained after it, and
  of the final state when nothing is chained. The trace shows why: with an unset speed
  slot the action makes no call of \<open>set_speed\<close>, with an unset oscillation slot no call of
  \<open>set_oscillating\<close>, and it always calls \<open>set_state(true)\<close>.
\<close>

theorem turn_on_unset_slots_untouched:
  "(\<exists>w'. play (TurnOnAction p osc TV_Empty nxt) x w = play_next nxt x w' \<and>
         get_speed p w' = get_speed p w \<and> get_state p w') \<and>
   (\<exists>w'. play (TurnOnAction p TV_Empty spd nxt) x w = play_next nxt x w' \<and>
         is_oscillating p w' = is_oscillating p w \<and> get_state p w') \<and>
   get_speed p (play (TurnOnAction p osc TV_Empty None) x w) = get_speed p w \<and>
   get_state p (play (TurnOnAction p osc TV_Empty None) x w) \<and>
   is_oscillating p (play (TurnOnAction p TV_Empty spd None) x w) = is_oscillating p w \<and>
   get_state p (play (TurnOnAction p TV_Empty spd None) x w) \<and>
   trace (play (TurnOnAction p osc TV_Empty None) x w) =
     trace w @ Call_set_state p True # map Invoke_callback (state_callback_m (heap w p)) @
       (if has_value osc
        then Call_set_oscillating p (tv_value osc x) #
          map Invoke_callback (state_callback_m (heap w p))
        else []) @ [Call_play_next x] \<and>
   trace (play (TurnOnAction p TV_Empty spd None) x w) =
     trace w @ Call_set_state p True # map Invoke_callback (state_callback_m (heap w p)) @
       (if has_value spd
        then Call_set_speed p (tv_value spd x) #
          map Invoke_callback (state_callback_m (heap w p))
        else []) @ [Call_play_next x]"
proof (intro conjI)
  show "\<exists>w'. play (TurnOnAction p osc TV_Empty nxt) x w = play_next nxt x w' \<and>
         get_speed p w' = get_speed p w \<and> get_state p w'"
    by (rule exI [of _ "if has_value osc then set_oscillating p (tv_value osc x) (set_state p True w)
          else set_state p True w"])
       (simp add: Let_def getter_defs setter_simps)
  show "\<exists>w'. play (TurnOnAction p TV_Empty spd nxt) x w = play_next nxt x w' \<and>
         is_oscillating p w' = is_oscillating p w \<and> get_state p w'"
    by (rule exI [of _ "if has_value spd then set_speed p (tv_value spd x) (set_state p True w)
          else set_state p True w"])
       (simp add: Let_def getter_defs setter_simps)
qed (simp_all add: Let_def getter_defs setter_simps)

text \<open>
  Claim C5. For every context value \<open>x\<close>, a turn-on action whose speed slot was configured
  with a function \<open>f\<close> through \<open>TurnOnAction::set_speed\<close> calls \<open>f\<close> on exactly \<open>x\<close> when it
  is played with \<open>x\<close>, and applies the result through \<open>set_speed\<close>: the action makes
  one call of \<open>set_speed\<close>, with the argument \<open>f x\<close>, as its last call on the fan before
  \<open>play_next\<close>, and the speed read back is \<open>f x\<close>.
\<close>

theorem turn_on_speed_function_gets_context:
  "(\<exists>w2. play (TurnOnAction_set_speed_fn f (TurnOnAction p osc spd nxt)) x w =
           play_next nxt x (set_speed p (f x) w2)) \<and>
   get_speed p (play (TurnOnAction_set_speed_fn f (TurnOnAction p osc spd None)) x w) = f x \<and>
   get_speed p (play (TurnOnAction_set_speed_fn f (make_turn_on_action p)) x w) = f x \<and>
   trace (play (TurnOnAction_set_speed_fn f (TurnOnAction p osc spd None)) x w) =
     trace w @ Call_set_state p True # map Invoke_callback (state_callback_m (heap w p)) @
       (if has_value osc
        then Call_set_oscillating p (tv_value osc x) #
          map Invoke_callback (state_callback_m (heap w p))
        else []) @
       Call_set_speed p (f x) # map Invoke_callback (state_callback_m (heap w p)) @
       [Call_play_next x]"
proof (intro conjI)
  show "\<exists>w2. play (TurnOnAction_set_speed_fn f (TurnOnAction p osc spd nxt)) x w =
           play_next nxt x (set_speed p (f x) w2)"
    by (simp add: Let_def) blast
qed (simp_all add: Let_def make_turn_on_action_def getter_defs setter_simps)

text \<open>
  Claim C6. For every starting state and every input \<open>x\<close>, the chain of a turn-on action
  followed by a toggle action on the same fan ends with the power off, while the oscillation
  and the speed that the turn-on action set (where its slots are configured) are still in
  the final state; an unset slot leaves its attribute as it was. The trace has the calls of
  the turn-on action first, then \<open>play_next\<close>, then the toggle's \<open>set_state(false)\<close>.
\<close>

theorem turn_on_then_toggle_chain:
  "\<not> get_state p (play (TurnOnAction p osc spd (Some (ToggleAction p None))) x w) \<and>
   is_oscillating p (play (TurnOnAction p osc spd (Some (ToggleAction p None))) x w) =
     (if has_value osc then tv_value osc x else is_oscillating p w) \<and>
   get_speed p (play (TurnOnAction p osc spd (Some (ToggleAction p None))) x w) =
     (if has_value spd then tv_value spd x else get_speed p w) \<and>
   trace (play (TurnOnAction p osc spd (Some (ToggleAction p None))) x w) =
     trace w @ Call_set_state p True # map Invoke_callback (state_callback_m (heap w p)) @
       (if has_value osc
        then Call_set_oscillating p (tv_value osc x) #
          map Invoke_callback (state_callback_m (heap w p))
        else []) @
       (if has_value spd
        then Call_set_speed p (tv_value spd x) #
          map Invoke_callback (state_callback_m (heap w p))
        else []) @
       Call_play_next x # Call_set_state p False #
       map Invoke_callback (state_callback_m (heap w p)) @ [Call_play_next x]"
  by (simp add: Let_def getter_defs setter_simps)

text \<open>
  Claim C7. A freshly constructed fan state has \<open>get_state()\<close> false, \<open>is_oscillating()\<close>
  false and \<open>get_speed()\<close> equal to \<open>FAN_SPEED_HIGH\<close>: the speed defaults to high although
  the power defaults to off.
\<close>

theorem fresh_fan_state_defaults:
  "\<not> get_state p (construct p name tr w) \<and>
   \<not> is_oscillating p (construct p name tr w) \<and>
   get_speed p (construct p name tr w) = FAN_SPEED_HIGH \<and>
   \<not> state_m (FanState_new name tr) \<and> \<not> oscillating_m (FanState_new name tr) \<and>
   speed_m (FanState_new name tr) = FAN_SPEED_HIGH"
  by (simp add: getter_defs construct_def FanState_new_def)

text \<open>
  Claim C8. For every boolean \<open>b\<close>, \<open>set_state(b)\<close> stores \<open>b\<close> and notifies every registered
  observer whatever the stored power value was; in particular writing back the value that
  \<open>get_state()\<close> has just returned still makes the call and all the invocations.
\<close>

theorem set_state_unconditional_notify:
  "heap (set_state p b w) = (heap w)(p := (heap w p)\<lparr>state_m := b\<rparr>) \<and>
   trace (set_state p b w) =
     trace w @ Call_set_state p b # map Invoke_callback (state_callback_m (heap w p)) \<and>
   get_state p (set_state p (get_state p w) w) = get_state p w \<and>
   trace (set_state p (get_state p w) w) =
     trace w @ Call_set_state p (get_state p w) #
       map Invoke_callback (state_callback_m (heap w p))"
  by (simp add: getter_defs setter_simps)

text \<open>
  Claim C9. For every starting state and every context value \<open>x\<close>, \<open>TurnOffAction::play\<close>
  sets the power to false and then forwards \<open>x\<close> to the next chained action: the state it
  hands on has the power off and the oscillation, the speed and the traits as before, its
  only call on the fan is \<open>set_state(false)\<close>, and the next action, when there is one, is
  played with \<open>x\<close> on that state.
\<close>

theorem turn_off_play_frame:
  "(\<exists>w'. play (TurnOffAction p nxt) x w = play_next nxt x w' \<and>
      \<not> get_state p w' \<and> is_oscillating p w' = is_oscillating p w \<and>
      get_speed p w' = get_speed p w \<and> get_traits p w' = get_traits p w \<and>
      trace w' = trace w @ Call_set_state p False #
        map Invoke_callback (state_callback_m (heap w p)) \<and>
      (\<exists>rest. trace (play_next nxt x w') = trace w' @ Call_play_next x # rest)) \<and>
   play (TurnOffAction p (Some a)) x w =
     play a x (set_state p False w\<lparr>trace := trace (set_state p False w) @ [Call_play_next x]\<rparr>) \<and>
   heap (play (TurnOffAction p None) x w) = (heap w)(p := (heap w p)\<lparr>state_m := False\<rparr>) \<and>
   trace (play (TurnOffAction p None) x w) =
     trace w @ Call_set_state p False # map Invoke_callback (state_callback_m (heap w p)) @
       [Call_play_next x]"
proof (intro conjI)
  show "\<exists>w'. play (TurnOffAction p nxt) x w = play_next nxt x w' \<and>
      \<not> get_state p w' \<and> is_oscillating p w' = is_oscillating p w \<and>
      get_speed p w' = get_speed p w \<and> get_traits p w' = get_traits p w \<and>
      trace w' = trace w @ Call_set_state p False #
        map Invoke_callback (state_callback_m (heap w p)) \<and>
      (\<exists>rest. trace (play_next nxt x w') = trace w' @ Call_play_next x # rest)"
  proof (intro exI [of _ "set_state p False w"] conjI)
    show "\<exists>rest. trace (play_next nxt x (set_state p False w)) =
        trace (set_state p False w) @ Call_play_next x # rest"
      by (rule play_trace_grows(2))
  qed (simp_all add: getter_defs setter_simps)
qed (simp_all add: setter_simps)

text \<open>
  Claim C10. In every execution of \<open>TurnOnAction::play\<close> the fan is mutated in this order:
  first \<open>set_state(true)\<close>, then \<open>set_oscillating\<close> if and only if the oscillation slot
  is configured, then \<open>set_speed\<close> if and only if the speed slot is configured; \<open>play_next\<close>
  is called once, after all of them. The world handed to \<open>play_next\<close> is the composition
  \<open>w3\<close> of these setter calls on the start world. The store after each step is given in
  full: after the first the power is on, after the second the oscillation is the slot's
  value (or as before, if the slot is unset), after the third the speed is the slot's value
  (or as before). The trace has the calls in the same order, each followed by its
  notifications, and the call of \<open>play_next\<close> after them.
\<close>

theorem turn_on_play_call_order:
  fixes w :: "'T world"
  shows "(let N = map Invoke_callback (state_callback_m (heap w p));
        own = Call_set_state p True # N @
          (if has_value osc then Call_set_oscillating p (tv_value osc x) # N else []) @
          (if has_value spd then Call_set_speed p (tv_value spd x) # N else []);
        fan = heap w p;
        new_osc = (if has_value osc then tv_value osc x else oscillating_m fan);
        new_spd = (if has_value spd then tv_value spd x else speed_m fan);
        w1 = set_state p True w;
        w2 = (if has_value osc then set_oscillating p (tv_value osc x) w1 else w1);
        w3 = (if has_value spd then set_speed p (tv_value spd x) w2 else w2)
    in play (TurnOnAction p osc spd nxt) x w = play_next nxt x w3 \<and>
       heap w1 = (heap w)(p := fan\<lparr>state_m := True\<rparr>) \<and>
       heap w2 = (heap w)(p := fan\<lparr>state_m := True, oscillating_m := new_osc\<rparr>) \<and>
       heap w3 =
         (heap w)(p := fan\<lparr>state_m := True, oscillating_m := new_osc, speed_m := new_spd\<rparr>) \<and>
       get_state p w3 \<and> is_oscillating p w3 = new_osc \<and> get_speed p w3 = new_spd \<and>
       trace w3 = trace w @ own \<and>
       (\<exists>rest. trace (play (TurnOnAction p osc spd nxt) x w) =
              trace w @ own @ Call_play_next x # rest) \<and>
       heap (play (TurnOnAction p osc spd None) x w) =
         (heap w)(p := fan\<lparr>state_m := True, oscillating_m := new_osc, speed_m := new_spd\<rparr>) \<and>
       trace (play (TurnOnAction p osc spd None) x w) = trace w @ own @ [Call_play_next x])"
proof -
  define N :: "'T event list" where "N = map Invoke_callback (state_callback_m (heap w p))"
  define own where "own = Call_set_state p True # N @
          (if has_value osc then Call_set_oscillating p (tv_value osc x) # N else []) @
          (if has_value spd then Call_set_speed p (tv_value spd x) # N else [])"
  define fan where "fan = heap w p"
  define new_osc where "new_osc = (if has_value osc then tv_value osc x else oscillating_m fan)"
  define new_spd where "new_spd = (if has_value spd then tv_value spd x else speed_m fan)"
  define w1 where "w1 = set_state p True w"
  define w2 where "w2 = (if has_value osc then set_oscillating p (tv_value osc x) w1 else w1)"
  define w3 where "w3 = (if has_value spd then set_speed p (tv_value spd x) w2 else w2)"
  have eq: "play (TurnOnAction p osc spd nxt) x w = play_next nxt x w3" for nxt
    by (simp add: w3_def w2_def w1_def Let_def)
  have h1: "heap w1 = (heap w)(p := fan\<lparr>state_m := True\<rparr>)"
    by (simp add: w1_def fan_def setter_simps)
  have h2: "heap w2 = (heap w)(p := fan\<lparr>state_m := True, oscillating_m := new_osc\<rparr>)"
    by (simp add: w2_def h1 new_osc_def fan_def w1_def setter_simps)
  have h3: "heap w3 =
      (heap w)(p := fan\<lparr>state_m := True, oscillating_m := new_osc, speed_m := new_spd\<rparr>)"
    by (simp add: w3_def h2 new_spd_def new_osc_def fan_def w2_def w1_def setter_simps)
  have g: "get_state p w3" "is_oscillating p w3 = new_osc" "get_speed p w3 = new_spd"
    by (simp_all add: getter_defs h3)
  have tr: "trace w3 = trace w @ own"
    by (simp add: w3_def w2_def w1_def own_def N_def setter_simps)
  obtain rest where "trace (play_next nxt x w3) = trace w3 @ Call_play_next x # rest"
    using play_trace_grows(2) [of nxt x w3] by blast
  with eq tr have a: "\<exists>rest. trace (play (TurnOnAction p osc spd nxt) x w) =
              trace w @ own @ Call_play_next x # rest"
    by simp
  have b: "trace (play (TurnOnAction p osc spd None) x w) = trace w @ own @ [Call_play_next x]"
    using tr by (simp add: eq del: play.simps)
  have c: "heap (play (TurnOnAction p osc spd None) x w) =
      (heap w)(p := fan\<lparr>state_m := True, oscillating_m := new_osc, speed_m := new_spd\<rparr>)"
    using h3 by (simp add: eq del: play.simps)
  from eq [of nxt] h1 h2 h3 g tr a b c show ?thesis
    unfolding Let_def w3_def w2_def w1_def new_spd_def new_osc_def fan_def own_def N_def
    by (intro conjI)
qed

subsection \<open>A run on a concrete store\<close>

text \<open>
  A fan with the observers 7 and 9, and the chain of a turn-on action with a constant
  oscillation and a speed computed from the context, followed by a toggle action. Played
  with the context 2, the chain leaves the fan off, oscillating and on medium speed, and
  notifies both observers after each of the four setter calls.
\<close>

lemma example_chain_final_state:
  "heap (play (TurnOnAction 0 (TV_Value True)
            (TV_Lambda (\<lambda>n::nat. if n = 2 then FAN_SPEED_MEDIUM else FAN_SPEED_LOW))
            (Some (ToggleAction 0 None))) 2
          (register_all 0 [7, 9] (construct 0 ''fan'' tr \<lparr>heap = h, trace = []\<rparr>))) 0 =
     \<lparr>name_m = ''fan'', state_m = False, oscillating_m = True, speed_m = FAN_SPEED_MEDIUM,
      traits_m = tr, state_callback_m = [7, 9]\<rparr>"
  by (simp add: Let_def setter_simps getter_defs construct_def FanState_new_def
      add_on_state_change_callback_def CallbackManager_add_def)

lemma example_chain_trace:
  "trace (play (TurnOnAction 0 (TV_Value True)
            (TV_Lambda (\<lambda>n::nat. if n = 2 then FAN_SPEED_MEDIUM else FAN_SPEED_LOW))
            (Some (ToggleAction 0 None))) 2
          (register_all 0 [7, 9] (construct 0 ''fan'' tr \<lparr>heap = h, trace = []\<rparr>))) =
     [Call_set_state 0 True, Invoke_callback 7, Invoke_callback 9,
      Call_set_oscillating 0 True, Invoke_callback 7, Invoke_callback 9,
      Call_set_speed 0 FAN_SPEED_MEDIUM, Invoke_callback 7, Invoke_callback 9,
      Call_play_next 2,
      Call_set_state 0 False, Invoke_callback 7, Invoke_callback 9,
      Call_play_next 2]"
  by (simp add: Let_def setter_simps getter_defs construct_def FanState_new_def
      add_on_state_change_callback_def CallbackManager_add_def)

end
